theory Spec2Isabelle
  imports Complex_Main "HOL-Library.Sublist" "HOL-Library.Multiset"
begin

section \<open>Data model\<close>

text \<open>
  The dashboard keeps a list of \<open>License\<close> objects (\<open>types.ts\<close>):
  \<^verbatim>\<open>
  export interface License { license_key: string; expires_at: string; hwid: string | null; }
  \<close>
  Every use of \<open>expires_at\<close> in the component goes through \<open>new Date(l.expires_at)\<close>. The field
  is therefore kept as the Date object that this constructor builds from the stored string:
  either a time value in milliseconds since the epoch, or the Invalid Date, whose time value is
  \<open>NaN\<close>. \<open>hwid\<close> is a string or \<open>null\<close>.
\<close>

datatype js_date = Date int | InvalidDate

record License =
  license_key :: string
  expires_at :: js_date
  hwid :: "string option"

text \<open>
  JavaScript numbers, as far as the component needs them: a rational or \<open>NaN\<close> (\<open>None\<close>).
  Time values are integers of magnitude at most \<open>8.64e15\<close>, which a double holds exactly, and
  the one quotient the code forms (\<open>diffTime / msPerDay\<close>) is only compared with \<open>7\<close>, a
  comparison that rounding to the nearest double does not change. Any comparison with \<open>NaN\<close>
  is false.
\<close>

type_synonym js_number = "rat option"

definition getTime :: "js_date \<Rightarrow> js_number" where
  "getTime d = (case d of Date t \<Rightarrow> Some (of_int t) | InvalidDate \<Rightarrow> None)"

definition num_sub :: "js_number \<Rightarrow> js_number \<Rightarrow> js_number" where
  "num_sub a b = (case (a, b) of (Some x, Some y) \<Rightarrow> Some (x - y) | _ \<Rightarrow> None)"

definition num_div :: "js_number \<Rightarrow> rat \<Rightarrow> js_number" where
  \<comment> \<open>division by a non-zero constant\<close>
  "num_div a c = (case a of Some x \<Rightarrow> Some (x / c) | None \<Rightarrow> None)"

definition num_less :: "js_number \<Rightarrow> js_number \<Rightarrow> bool" where
  "num_less a b = (case (a, b) of (Some x, Some y) \<Rightarrow> x < y | _ \<Rightarrow> False)"

definition num_le :: "js_number \<Rightarrow> js_number \<Rightarrow> bool" where
  "num_le a b = (case (a, b) of (Some x, Some y) \<Rightarrow> x \<le> y | _ \<Rightarrow> False)"

definition date_less :: "js_date \<Rightarrow> js_date \<Rightarrow> bool" where
  \<comment> \<open>\<open>d1 < d2\<close> on Date objects compares their time values\<close>
  "date_less d1 d2 = num_less (getTime d1) (getTime d2)"

definition truthy :: "string option \<Rightarrow> bool" where
  \<comment> \<open>truthiness of a \<open>string | null\<close>: \<open>null\<close> and the empty string are falsy\<close>
  "truthy v = (case v of None \<Rightarrow> False | Some s \<Rightarrow> s \<noteq> [])"

section \<open>Status classifier\<close>

text \<open>
  \<^verbatim>\<open>
  const getLicenseStatus = (license: License) => {
    const now = new Date();
    const expiryDate = new Date(license.expires_at);
    const isExpired = expiryDate < now;
    const msPerDay = 1000 * 60 * 60 * 24;
    const diffTime = expiryDate.getTime() - now.getTime();
    const diffDays = diffTime / msPerDay;
    const isExpiringSoon = !isExpired && diffDays <= 7;
    if (isExpired) return 'expired';
    if (isExpiringSoon) return 'expiring';
    if (license.hwid) return 'active';
    return 'available';
  };
  \<close>
  The function has one parameter, the license. The instant it compares with is read from the
  wall clock by \<open>new Date()\<close>; in the model the clock reading is the first argument
  \<open>clock\<close>, the milliseconds that \<open>new Date()\<close> returns during the call.
\<close>

datatype status = Expired | Expiring | Active | Available

definition msPerDay :: rat where
  "msPerDay = 1000 * 60 * 60 * 24"

definition getLicenseStatus :: "int \<Rightarrow> License \<Rightarrow> status" where
  "getLicenseStatus clock license =
     (let now = Date clock;
          expiryDate = expires_at license;
          isExpired = date_less expiryDate now;
          diffTime = num_sub (getTime expiryDate) (getTime now);
          diffDays = num_div diffTime msPerDay;
          isExpiringSoon = (\<not> isExpired \<and> num_le diffDays (Some 7))
      in if isExpired then Expired
         else if isExpiringSoon then Expiring
         else if truthy (hwid license) then Active
         else Available)"

subsection \<open>The classification in the words of the specification\<close>

text \<open>
  A record is expired at instant \<open>T\<close> when its expiry instant is strictly before \<open>T\<close>; it is
  within the window when the elapsed time from \<open>T\<close> to the expiry instant is at most seven days,
  that is \<open>604800000\<close> milliseconds. A record whose date does not parse has no expiry instant
  and is neither.
\<close>

definition expired_at :: "int \<Rightarrow> License \<Rightarrow> bool" where
  "expired_at T r = (case expires_at r of Date t \<Rightarrow> t < T | InvalidDate \<Rightarrow> False)"

definition within_7_days :: "int \<Rightarrow> License \<Rightarrow> bool" where
  "within_7_days T r = (case expires_at r of Date t \<Rightarrow> t - T \<le> 604800000 | InvalidDate \<Rightarrow> False)"

definition hwid_bound :: "License \<Rightarrow> bool" where
  \<comment> \<open>a hardware identifier that is neither \<open>null\<close> nor the empty string\<close>
  "hwid_bound r = (hwid r \<noteq> None \<and> hwid r \<noteq> Some [])"


section \<open>Strings\<close>

text \<open>
  Strings are lists of characters. \<open>toLowerCase\<close> maps the letters \<open>A\<close> to \<open>Z\<close> to \<open>a\<close> to
  \<open>z\<close> and leaves every other character as it is; \<open>s.includes(t)\<close> holds when \<open>t\<close> occurs in
  \<open>s\<close> as a contiguous block, tried at every start position from the left.
\<close>

definition char_toLowerCase :: "char \<Rightarrow> char" where
  "char_toLowerCase c =
     (if (65::nat) \<le> of_char c \<and> of_char c \<le> (90::nat) then char_of (of_char c + (32::nat)) else c)"

definition toLowerCase :: "string \<Rightarrow> string" where
  "toLowerCase s = map char_toLowerCase s"

fun str_includes :: "string \<Rightarrow> string \<Rightarrow> bool" where
  "str_includes [] t = (t = [])"
| "str_includes (c # cs) t = (prefix t (c # cs) \<or> str_includes cs t)"

section \<open>Filter engine\<close>

text \<open>
  \<^verbatim>\<open>
  const filteredLicenses = useMemo(() => {
    return licenses.filter(l => {
      const matchesSearch = l.license_key.toLowerCase().includes(searchTerm.toLowerCase()) ||
        (l.hwid && l.hwid.toLowerCase().includes(searchTerm.toLowerCase()));
      if (!matchesSearch) return false;
      const now = new Date();
      const expiryDate = new Date(l.expires_at);
      const isExpired = expiryDate < now;
      const msPerDay = 1000 * 60 * 60 * 24;
      const diffTime = expiryDate.getTime() - now.getTime();
      const diffDays = diffTime / msPerDay;
      const isExpiringSoon = !isExpired && diffDays <= 7;
      switch (filterStatus) {
        case 'active': return !isExpired;
        case 'expired': return isExpired;
        case 'expiring': return isExpiringSoon;
        default: return true; // 'all'
      }
    });
  }, [licenses, searchTerm, filterStatus]);
  \<close>
  \<open>matchesSearch\<close> is truthy when the key contains the term, or when \<open>hwid\<close> is truthy and
  contains it. The callback reads the clock for each record it tests; one recomputation is a
  single synchronous pass, and the model gives it one clock reading.
\<close>

datatype filter_status = F_all | F_active | F_expired | F_expiring

definition matchesSearch :: "string \<Rightarrow> License \<Rightarrow> bool" where
  "matchesSearch searchTerm l =
     (str_includes (toLowerCase (license_key l)) (toLowerCase searchTerm) \<or>
      (case hwid l of
         None \<Rightarrow> False
       | Some h \<Rightarrow> h \<noteq> [] \<and> str_includes (toLowerCase h) (toLowerCase searchTerm)))"

definition filter_callback :: "int \<Rightarrow> string \<Rightarrow> filter_status \<Rightarrow> License \<Rightarrow> bool" where
  "filter_callback clock searchTerm filterStatus l =
     (if \<not> matchesSearch searchTerm l then False
      else
        let now = Date clock;
            expiryDate = expires_at l;
            isExpired = date_less expiryDate now;
            diffTime = num_sub (getTime expiryDate) (getTime now);
            diffDays = num_div diffTime msPerDay;
            isExpiringSoon = (\<not> isExpired \<and> num_le diffDays (Some 7))
        in case filterStatus of
             F_active \<Rightarrow> \<not> isExpired
           | F_expired \<Rightarrow> isExpired
           | F_expiring \<Rightarrow> isExpiringSoon
           | F_all \<Rightarrow> True)"

definition filteredLicenses :: "int \<Rightarrow> License list \<Rightarrow> string \<Rightarrow> filter_status \<Rightarrow> License list" where
  "filteredLicenses clock licenses searchTerm filterStatus =
     filter (filter_callback clock searchTerm filterStatus) licenses"

subsection \<open>The two predicates in the words of the specification\<close>




section \<open>Sort engine\<close>

text \<open>
  \<^verbatim>\<open>
  const sortedLicenses = useMemo(() => {
    const sorted = [...filteredLicenses];
    sorted.sort((a, b) => {
      const dirMultiplier = sortConfig.direction === 'asc' ? 1 : -1;
      switch (sortConfig.field) {
        case 'license_key':
          return a.license_key.localeCompare(b.license_key) * dirMultiplier;
        case 'hwid':
          return (a.hwid || '').localeCompare(b.hwid || '') * dirMultiplier;
        case 'status': {
          const order = ['available', 'active', 'expiring', 'expired'];
          const diff = order.indexOf(getLicenseStatus(a)) - order.indexOf(getLicenseStatus(b));
          return diff * dirMultiplier;
        }
        case 'expires_at':
        default:
          return (new Date(a.expires_at).getTime() - new Date(b.expires_at).getTime()) * dirMultiplier;
      }
    });
    return sorted;
  }, [filteredLicenses, sortConfig]);
  \<close>
  \<open>localeCompare\<close> depends on the host's locale and is a parameter of the model. The
  comparator reads the clock (through \<open>getLicenseStatus\<close>) at each call; one sort is a
  single synchronous pass, and the model gives it one clock reading.
  \<open>Array.prototype.sort\<close> is stable; it reads a comparator result \<open>v\<close> as "\<open>a\<close> before \<open>b\<close>" when
  \<open>v < 0\<close>, as a tie when \<open>v = 0\<close>, and takes \<open>NaN\<close> for \<open>+0\<close>. On a consistent comparator its
  result is the one stable sorted arrangement, which the insertion sort below computes: the
  elements are inserted from the last to the first, each before the first element it does not
  follow. For a comparator that is not consistent the order is left to the engine.
\<close>

datatype SortField = S_license_key | S_status | S_hwid | S_expires_at

datatype SortDirection = Asc | Desc

record SortConfig =
  field :: SortField
  direction :: SortDirection

fun indexOf :: "'a list \<Rightarrow> 'a \<Rightarrow> int" where
  "indexOf [] x = - 1"
| "indexOf (y # ys) x =
     (if y = x then 0 else (let i = indexOf ys x in if i < 0 then - 1 else i + 1))"

definition order :: "status list" where
  "order = [Available, Active, Expiring, Expired]"

definition hwid_or_empty :: "License \<Rightarrow> string" where
  \<comment> \<open>\<open>a.hwid || ''\<close>\<close>
  "hwid_or_empty a = (case hwid a of None \<Rightarrow> [] | Some h \<Rightarrow> h)"

definition num_mul :: "js_number \<Rightarrow> rat \<Rightarrow> js_number" where
  "num_mul a c = (case a of Some x \<Rightarrow> Some (x * c) | None \<Rightarrow> None)"

definition compareFn ::
  "(string \<Rightarrow> string \<Rightarrow> int) \<Rightarrow> int \<Rightarrow> SortConfig \<Rightarrow> License \<Rightarrow> License \<Rightarrow> js_number" where
  "compareFn localeCompare clock sortConfig a b =
     (let dirMultiplier = (if direction sortConfig = Asc then 1 else - 1) in
      case field sortConfig of
        S_license_key \<Rightarrow>
          Some (of_int (localeCompare (license_key a) (license_key b)) * dirMultiplier)
      | S_hwid \<Rightarrow>
          Some (of_int (localeCompare (hwid_or_empty a) (hwid_or_empty b)) * dirMultiplier)
      | S_status \<Rightarrow>
          (let diff = indexOf order (getLicenseStatus clock a)
                        - indexOf order (getLicenseStatus clock b)
           in Some (of_int diff * dirMultiplier))
      | S_expires_at \<Rightarrow>
          num_mul (num_sub (getTime (expires_at a)) (getTime (expires_at b))) dirMultiplier)"

definition sort_compare :: "('a \<Rightarrow> 'a \<Rightarrow> js_number) \<Rightarrow> 'a \<Rightarrow> 'a \<Rightarrow> rat" where
  \<comment> \<open>the comparator's result as the sort reads it: \<open>NaN\<close> counts as \<open>+0\<close>\<close>
  "sort_compare cmp a b = (case cmp a b of None \<Rightarrow> 0 | Some v \<Rightarrow> v)"

fun sort_insert :: "('a \<Rightarrow> 'a \<Rightarrow> js_number) \<Rightarrow> 'a \<Rightarrow> 'a list \<Rightarrow> 'a list" where
  "sort_insert cmp x [] = [x]"
| "sort_insert cmp x (y # ys) =
     (if sort_compare cmp x y \<le> 0 then x # y # ys else y # sort_insert cmp x ys)"

fun array_sort :: "('a \<Rightarrow> 'a \<Rightarrow> js_number) \<Rightarrow> 'a list \<Rightarrow> 'a list" where
  "array_sort cmp [] = []"
| "array_sort cmp (x # xs) = sort_insert cmp x (array_sort cmp xs)"

definition sortedLicenses ::
  "(string \<Rightarrow> string \<Rightarrow> int) \<Rightarrow> int \<Rightarrow> SortConfig \<Rightarrow> License list \<Rightarrow> License list" where
  "sortedLicenses localeCompare clock sortConfig filtered =
     array_sort (compareFn localeCompare clock sortConfig) filtered"

subsection \<open>Rank in the words of the specification\<close>


subsection \<open>Consistent comparators\<close>


section \<open>Paginator\<close>

text \<open>
  \<^verbatim>\<open>
  const totalPages = Math.max(1, Math.ceil(sortedLicenses.length / pageSize));

  const paginatedLicenses = useMemo(() => {
    const startIdx = (currentPage - 1) * pageSize;
    return sortedLicenses.slice(startIdx, startIdx + pageSize);
  }, [sortedLicenses, currentPage, pageSize]);
  \<close>
  \<open>pageSize\<close> and \<open>currentPage\<close> are integers. With a page size of zero the quotient is
  \<open>Infinity\<close> or \<open>NaN\<close> and \<open>totalPages\<close> is not an integer: the model returns \<open>None\<close>.
  \<open>records\<close> stands for the array \<open>sortedLicenses\<close>.
  \<open>slice\<close> counts a negative bound from the end of the array and clips both bounds to it.
\<close>

definition totalPages :: "'a list \<Rightarrow> int \<Rightarrow> int option" where
  "totalPages records pageSize =
     (if pageSize = 0 then None
      else Some (max 1 \<lceil>(of_nat (length records) :: rat) / of_int pageSize\<rceil>))"

definition slice :: "'a list \<Rightarrow> int \<Rightarrow> int \<Rightarrow> 'a list" where
  "slice xs start fin =
     (let len = int (length xs);
          k = (if start < 0 then max (len + start) 0 else min start len);
          final = (if fin < 0 then max (len + fin) 0 else min fin len)
      in take (nat (final - k)) (drop (nat k) xs))"

definition paginatedLicenses :: "'a list \<Rightarrow> int \<Rightarrow> int \<Rightarrow> 'a list" where
  "paginatedLicenses records currentPage pageSize =
     (let startIdx = (currentPage - 1) * pageSize
      in slice records startIdx (startIdx + pageSize))"

section \<open>Dashboard aggregates\<close>

text \<open>
  \<^verbatim>\<open>
  const stats = useMemo(() => {
    const now = new Date();
    return {
      total: licenses.length,
      active: licenses.filter(l => l.hwid !== null).length,
      expired: licenses.filter(l => new Date(l.expires_at) < now).length,
      available: licenses.filter(l => l.hwid === null && new Date(l.expires_at) > now).length
    };
  }, [licenses]);
  \<close>
\<close>

record Stats =
  total_count :: nat
  active_count :: nat
  expired_count :: nat
  available_count :: nat

definition stats :: "int \<Rightarrow> License list \<Rightarrow> Stats" where
  "stats clock licenses =
     (let now = Date clock in
      \<lparr>total_count = length licenses,
       active_count = length (filter (\<lambda>l. hwid l \<noteq> None) licenses),
       expired_count = length (filter (\<lambda>l. date_less (expires_at l) now) licenses),
       available_count =
         length (filter (\<lambda>l. hwid l = None \<and> date_less now (expires_at l)) licenses)\<rparr>)"

definition expires_after :: "int \<Rightarrow> License \<Rightarrow> bool" where
  \<comment> \<open>the expiry instant is strictly after \<open>T\<close>\<close>
  "expires_after T r = (case expires_at r of Date t \<Rightarrow> T < t | InvalidDate \<Rightarrow> False)"

section \<open>Component state\<close>

text \<open>
  The state hooks of \<open>App\<close> that the operations below read or write, with their initial
  values:
  \<^verbatim>\<open>
  const [licenses, setLicenses] = useState<License[]>([]);
  const [loading, setLoading] = useState(false);
  const [error, setError] = useState<string | null>(null);
  const [searchTerm, setSearchTerm] = useState('');
  const [filterStatus, setFilterStatus] = useState<'all' | 'active' | 'expired' | 'expiring'>('all');
  const [currentPage, setCurrentPage] = useState(1);
  const [pageSize, setPageSize] = useState(10);
  const [sortConfig, setSortConfig] = useState<{ field: SortField, direction: SortDirection }>({
    field: 'expires_at', direction: 'asc' });
  const [loginForm, setLoginForm] = useState({ email: '', password: '' });
  const [authLoading, setAuthLoading] = useState(false);
  const [authError, setAuthError] = useState<string | null>(null);
  const [user, setUser] = useState<User | null>(null);
  \<close>
  A \<open>User\<close> of the authentication client has an optional \<open>email\<close>. Beside the hooks the
  record holds the two memoised lists, which are recomputed only in a render in which one of
  their dependencies has changed, and the session that the authentication client keeps;
  the \<open>user\<close> hook follows that session through the \<open>onAuthStateChange\<close> listener.
\<close>

record User =
  email :: "string option"

record LoginForm =
  form_email :: string
  form_password :: string

record App =
  licenses :: "License list"
  loading :: bool
  error :: "string option"
  searchTerm :: string
  filterStatus :: filter_status
  currentPage :: int
  pageSize :: int
  sortConfig :: SortConfig
  loginForm :: LoginForm
  authLoading :: bool
  authError :: "string option"
  user :: "User option"
  session :: "User option"
  filteredLicenses_memo :: "License list"
  sortedLicenses_memo :: "License list"

definition initial :: App where
  "initial =
     \<lparr>licenses = [], loading = False, error = None, searchTerm = [], filterStatus = F_all,
      currentPage = 1, pageSize = 10,
      sortConfig = \<lparr>field = S_expires_at, direction = Asc\<rparr>,
      loginForm = \<lparr>form_email = [], form_password = []\<rparr>,
      authLoading = False, authError = None, user = None, session = None,
      filteredLicenses_memo = [], sortedLicenses_memo = []\<rparr>"

section \<open>Authorization\<close>









subsection \<open>The allow-list in the words of the specification\<close>




section \<open>Refreshing the license list\<close>

text \<open>
  \<^verbatim>\<open>
  const fetchLicenses = async () => {
    if (!isAuthorized) return;
    const client = getSupabaseClient();
    if (!client) return;
    setLoading(true);
    try {
      const { data, error } = await client.from('licenses').select('*')
        .order('expires_at', { ascending: true });
      if (error) throw error;
      setLicenses(data || []);
      setError(null);
    } catch (err: any) {
      console.error(err);
      setError(err.message);
    } finally {
      setLoading(false);
    }
  };
  \<close>
  The answer of the remote store is an input of the model: a failure with its message (an
  error in the answer or a rejected request, both reach the \<open>catch\<close> branch), or the data, which
  may be \<open>null\<close>.
\<close>

datatype fetch_result = FetchFailed string | FetchData "License list option"

definition fetchLicenses :: "bool \<Rightarrow> bool \<Rightarrow> fetch_result \<Rightarrow> App \<Rightarrow> App" where
  "fetchLicenses authorized client response s =
     (if \<not> authorized then s
      else if \<not> client then s
      else
        let s1 = s\<lparr>loading := True\<rparr> in
        case response of
          FetchData data \<Rightarrow>
            s1\<lparr>licenses := (case data of None \<Rightarrow> [] | Some d \<Rightarrow> d),
               error := None, loading := False\<rparr>
        | FetchFailed message \<Rightarrow> s1\<lparr>error := Some message, loading := False\<rparr>)"

section \<open>View model controller\<close>

text \<open>
  The page index is kept in range by two effects:
  \<^verbatim>\<open>
  useEffect(() => {
    setCurrentPage(1);
  }, [searchTerm, filterStatus, pageSize]);

  const totalPages = Math.max(1, Math.ceil(sortedLicenses.length / pageSize));

  useEffect(() => {
    if (currentPage > totalPages) {
      setCurrentPage(totalPages);
    }
  }, [totalPages, currentPage]);
  \<close>
  and the page index, the page size, the search term, the filter and the sort order are set by
  \<^verbatim>\<open>
  onChange={e => setSearchTerm(e.target.value)}
  onChange={(e) => setFilterStatus(e.target.value as any)}
  onChange={e => setPageSize(Number(e.target.value))}
  onClick={() => setCurrentPage(prev => Math.max(1, prev - 1))}
  onClick={() => setCurrentPage(prev => Math.min(totalPages, prev + 1))}

  const handleSort = (field: SortField) => {
    setSortConfig(prev => {
      if (prev.field === field) {
        return { field, direction: prev.direction === 'asc' ? 'desc' : 'asc' };
      }
      return { field, direction: 'asc' };
    });
  };
  \<close>
  A render computes \<open>totalPages\<close> from the memoised sorted list and the page size. After a
  render is committed, each effect whose dependencies differ from those of the previous render
  runs, in the order of declaration, on the values of the render it belongs to; the calls of
  \<open>setCurrentPage\<close> made by the effects are queued and applied in that order, so the last call
  decides; if the state has changed the component renders again and the effects are
  considered again. An event is handled by its state setter followed by these renders. A
  setter called with the value the hook already holds causes no render. The memoised lists are
  recomputed, at the clock reading of the render, only when one of their dependencies has
  changed.
\<close>

definition render_totalPages :: "App \<Rightarrow> int option" where
  "render_totalPages s = totalPages (sortedLicenses_memo s) (pageSize s)"

definition page_reset_effect :: "App \<Rightarrow> App \<Rightarrow> int list" where
  \<comment> \<open>the calls of \<open>setCurrentPage\<close> by the first effect, after render \<open>cur\<close> that follows render \<open>prev\<close>\<close>
  "page_reset_effect prev cur =
     (if (searchTerm prev, filterStatus prev, pageSize prev)
           = (searchTerm cur, filterStatus cur, pageSize cur)
      then [] else [1])"

definition page_clamp_effect :: "App \<Rightarrow> App \<Rightarrow> int list" where
  \<comment> \<open>the calls of \<open>setCurrentPage\<close> by the second effect\<close>
  "page_clamp_effect prev cur =
     (if (render_totalPages prev, currentPage prev) = (render_totalPages cur, currentPage cur)
      then []
      else (case render_totalPages cur of
              None \<Rightarrow> []
            | Some tp \<Rightarrow> if currentPage cur > tp then [tp] else []))"

definition commit_effects :: "App \<Rightarrow> App \<Rightarrow> App" where
  "commit_effects prev cur =
     (let queue = page_reset_effect prev cur @ page_clamp_effect prev cur
      in cur\<lparr>currentPage := foldl (\<lambda>page v. v) (currentPage cur) queue\<rparr>)"

definition effect_budget :: "App \<times> App \<Rightarrow> nat" where
  \<comment> \<open>bounds the renders still to come: the reset can fire once, then the clamp once\<close>
  "effect_budget rs =
     (case rs of (prev, cur) \<Rightarrow>
        (if (searchTerm prev, filterStatus prev, pageSize prev)
              = (searchTerm cur, filterStatus cur, pageSize cur) then 0 else 2)
        + (case render_totalPages cur of
             None \<Rightarrow> 0
           | Some tp \<Rightarrow> if currentPage cur > tp then 1 else 0))"

function settle :: "App \<Rightarrow> App \<Rightarrow> App" where
  "settle prev cur =
     (let next = commit_effects prev cur
      in if currentPage next = currentPage cur then cur else settle cur next)"
  by pat_completeness auto
termination
proof (relation "measure effect_budget")
  show "wf (measure effect_budget)" by simp
next
  fix prev cur nxt
  assume n: "nxt = commit_effects prev cur" and ch: "currentPage nxt \<noteq> currentPage cur"
  have same: "searchTerm nxt = searchTerm cur" "filterStatus nxt = filterStatus cur"
    "pageSize nxt = pageSize cur" "render_totalPages nxt = render_totalPages cur"
    by (simp_all add: n commit_effects_def render_totalPages_def)
  show "((cur, nxt), (prev, cur)) \<in> measure effect_budget"
  proof (cases "(searchTerm prev, filterStatus prev, pageSize prev)
        = (searchTerm cur, filterStatus cur, pageSize cur)")
    case False
    then show ?thesis
      by (simp add: effect_budget_def same split: option.split)
  next
    case True
    then have reset: "page_reset_effect prev cur = []"
      by (simp add: page_reset_effect_def)
    from ch obtain tp where tp: "render_totalPages cur = Some tp" "currentPage cur > tp"
      "currentPage nxt = tp"
      by (auto simp add: n commit_effects_def reset page_clamp_effect_def
          split: if_splits option.splits)
    with True show ?thesis
      by (simp add: effect_budget_def same)
  qed
qed

declare settle.simps [simp del]

datatype event =
    SearchInput string
  | FilterSelect filter_status
  | PageSizeSelect int
  | PrevClick
  | NextClick
  | SortClick SortField
  | Refreshed fetch_result

definition handleSort :: "SortField \<Rightarrow> SortConfig \<Rightarrow> SortConfig" where
  "handleSort f prev =
     (if field prev = f
      then \<lparr>field = f, direction = (if direction prev = Asc then Desc else Asc)\<rparr>
      else \<lparr>field = f, direction = Asc\<rparr>)"

definition recompute_sorted :: "(string \<Rightarrow> string \<Rightarrow> int) \<Rightarrow> int \<Rightarrow> App \<Rightarrow> App" where
  "recompute_sorted localeCompare clock s =
     s\<lparr>sortedLicenses_memo :=
         sortedLicenses localeCompare clock (sortConfig s) (filteredLicenses_memo s)\<rparr>"

definition recompute_lists :: "(string \<Rightarrow> string \<Rightarrow> int) \<Rightarrow> int \<Rightarrow> App \<Rightarrow> App" where
  "recompute_lists localeCompare clock s =
     recompute_sorted localeCompare clock
       (s\<lparr>filteredLicenses_memo :=
            filteredLicenses clock (licenses s) (searchTerm s) (filterStatus s)\<rparr>)"

fun handle :: "(string \<Rightarrow> string \<Rightarrow> int) \<Rightarrow> int \<Rightarrow> event \<Rightarrow> App \<Rightarrow> App" where
  "handle lc clock (SearchInput v) s =
     (if v = searchTerm s then s else recompute_lists lc clock (s\<lparr>searchTerm := v\<rparr>))"
| "handle lc clock (FilterSelect v) s =
     (if v = filterStatus s then s else recompute_lists lc clock (s\<lparr>filterStatus := v\<rparr>))"
| "handle lc clock (PageSizeSelect n) s = s\<lparr>pageSize := n\<rparr>"
| "handle lc clock PrevClick s = s\<lparr>currentPage := max 1 (currentPage s - 1)\<rparr>"
| "handle lc clock NextClick s =
     s\<lparr>currentPage :=
         (case render_totalPages s of
            None \<Rightarrow> currentPage s + 1
          | Some tp \<Rightarrow> min tp (currentPage s + 1))\<rparr>"
| "handle lc clock (SortClick f) s =
     recompute_sorted lc clock (s\<lparr>sortConfig := handleSort f (sortConfig s)\<rparr>)"
| "handle lc clock (Refreshed r) s =
     (case r of
        FetchData d \<Rightarrow> recompute_lists lc clock (fetchLicenses True True r s)
      | FetchFailed m \<Rightarrow> fetchLicenses True True r s)"

definition dispatch :: "(string \<Rightarrow> string \<Rightarrow> int) \<Rightarrow> int \<Rightarrow> event \<Rightarrow> App \<Rightarrow> App" where
  "dispatch lc clock ev s = settle s (handle lc clock ev s)"

definition page_in_range :: "App \<Rightarrow> bool" where
  \<comment> \<open>the page index lies in \<open>[1, totalPages]\<close>\<close>
  "page_in_range s =
     (case render_totalPages s of
        None \<Rightarrow> False
      | Some tp \<Rightarrow> 1 \<le> currentPage s \<and> currentPage s \<le> tp)"

subsection \<open>Twenty-one licenses\<close>

text \<open>
  Eleven keys that begin with \<open>VIP\<close> and ten that begin with \<open>STD\<close>, all unbound and expiring at
  the same instant.
\<close>

definition license_of_key :: "string \<Rightarrow> License" where
  "license_of_key k = \<lparr>license_key = k, expires_at = Date 2000000000000, hwid = None\<rparr>"

definition twenty_one_licenses :: "License list" where
  "twenty_one_licenses = map license_of_key
     [''VIP-01'', ''VIP-02'', ''VIP-03'', ''VIP-04'', ''VIP-05'', ''VIP-06'', ''VIP-07'',
      ''VIP-08'', ''VIP-09'', ''VIP-10'', ''VIP-11'',
      ''STD-01'', ''STD-02'', ''STD-03'', ''STD-04'', ''STD-05'', ''STD-06'', ''STD-07'',
      ''STD-08'', ''STD-09'', ''STD-10'']"

definition on_page_three :: App where
  \<comment> \<open>the licenses loaded, ten a page, the third page shown\<close>
  "on_page_three =
     initial\<lparr>licenses := twenty_one_licenses, currentPage := 3,
       filteredLicenses_memo := twenty_one_licenses, sortedLicenses_memo := twenty_one_licenses\<rparr>"

subsection \<open>Reachable states\<close>

text \<open>
  The page-size control offers the sizes \<open>10\<close>, \<open>25\<close> and \<open>50\<close>; every other event is free.
  The reachable states are those that events lead to from the initial state, each event
  handled at some clock reading.
\<close>

definition offered :: "event \<Rightarrow> bool" where
  "offered ev = (case ev of PageSizeSelect n \<Rightarrow> n = 10 \<or> n = 25 \<or> n = 50 | _ \<Rightarrow> True)"

inductive reachable :: "(string \<Rightarrow> string \<Rightarrow> int) \<Rightarrow> App \<Rightarrow> bool"
  for lc :: "string \<Rightarrow> string \<Rightarrow> int" where
  mounted: "reachable lc initial"
| handled: "reachable lc s \<Longrightarrow> offered ev \<Longrightarrow> reachable lc (dispatch lc clock ev s)"

section \<open>Properties of the classifier\<close>

lemma isExpired_iff: "date_less (expires_at r) (Date T) = expired_at T r"
  by (simp add: date_less_def num_less_def getTime_def expired_at_def split: js_date.split)

lemma diffDays_iff:
  "num_le (num_div (num_sub (getTime (expires_at r)) (getTime (Date T))) msPerDay) (Some 7)
     = within_7_days T r"
proof (cases "expires_at r")
  case (Date t)
  have "(of_int t - of_int T) / (86400000::rat) \<le> 7 \<longleftrightarrow> (of_int (t - T) :: rat) \<le> of_int 604800000"
    by (simp add: divide_le_eq)
  also have "\<dots> \<longleftrightarrow> t - T \<le> 604800000"
    by (simp only: of_int_le_iff)
  finally show ?thesis
    using Date by (simp add: num_le_def num_div_def num_sub_def getTime_def within_7_days_def msPerDay_def)
next
  case InvalidDate
  then show ?thesis
    by (simp add: num_le_def num_div_def num_sub_def getTime_def within_7_days_def)
qed

lemma truthy_iff: "truthy (hwid r) = hwid_bound r"
  by (cases "hwid r"; simp add: truthy_def hwid_bound_def)

lemma getLicenseStatus_eq:
  "getLicenseStatus T r =
     (if expired_at T r then Expired
      else if within_7_days T r then Expiring
      else if hwid_bound r then Active else Available)"
  unfolding getLicenseStatus_def Let_def isExpired_iff diffDays_iff truthy_iff
  by simp

text \<open>
  C1 (as the code has it). At every clock reading \<open>T\<close> and for every record the classifier
  returns exactly one of the four statuses: \<open>Expired\<close> exactly when the expiry instant is
  strictly before \<open>T\<close>; \<open>Expiring\<close> exactly when the record is not expired and the expiry
  instant is at most seven days of elapsed time after \<open>T\<close>; otherwise \<open>Active\<close> exactly when
  \<open>hwid\<close> is a non-empty string and \<open>Available\<close> exactly when \<open>hwid\<close> is \<open>null\<close> or the
  empty string. In particular a record inside the window is \<open>Expiring\<close> whatever its
  \<open>hwid\<close>: expiring takes precedence over active.
\<close>

theorem getLicenseStatus_classification:
  "(getLicenseStatus T r = Expired) = expired_at T r \<and>
   (getLicenseStatus T r = Expiring) = (\<not> expired_at T r \<and> within_7_days T r) \<and>
   (getLicenseStatus T r = Active) =
      (\<not> expired_at T r \<and> \<not> within_7_days T r \<and> hwid_bound r) \<and>
   (getLicenseStatus T r = Available) =
      (\<not> expired_at T r \<and> \<not> within_7_days T r \<and> \<not> hwid_bound r)"
  by (simp add: getLicenseStatus_eq)

text \<open>
  The scenario of the specification: a record expiring three days after the clock reading, bound
  to the hardware identifier \<open>xyz\<close>, is \<open>Expiring\<close> and not \<open>Active\<close>.
\<close>

theorem getLicenseStatus_classification_witness:
  "hwid_bound \<lparr>license_key = ''B2'', expires_at = Date (1000 + 259200000), hwid = Some ''xyz''\<rparr> \<and>
   getLicenseStatus 1000
     \<lparr>license_key = ''B2'', expires_at = Date (1000 + 259200000), hwid = Some ''xyz''\<rparr> = Expiring \<and>
   getLicenseStatus 1000
     \<lparr>license_key = ''B2'', expires_at = Date (1000 + 259200000), hwid = Some ''xyz''\<rparr> \<noteq> Active"
  using getLicenseStatus_classification
    [of 1000 "\<lparr>license_key = ''B2'', expires_at = Date (1000 + 259200000), hwid = Some ''xyz''\<rparr>"]
  by (simp add: expired_at_def within_7_days_def hwid_bound_def)

text \<open>
  C1 as the specification words it takes every non-null \<open>hwid\<close> to \<open>Active\<close>. The test in the
  code is \<open>if (license.hwid)\<close>, and the empty string is falsy: a record ten days from expiry
  whose \<open>hwid\<close> is the empty string is not null, not expired, not inside the window, and is
  classified \<open>Available\<close>.
\<close>

theorem getLicenseStatus_empty_hwid_counterexample:
  "hwid \<lparr>license_key = ''K'', expires_at = Date 864000000, hwid = Some ''''\<rparr> \<noteq> None \<and>
   \<not> expired_at 0 \<lparr>license_key = ''K'', expires_at = Date 864000000, hwid = Some ''''\<rparr> \<and>
   \<not> within_7_days 0 \<lparr>license_key = ''K'', expires_at = Date 864000000, hwid = Some ''''\<rparr> \<and>
   getLicenseStatus 0 \<lparr>license_key = ''K'', expires_at = Date 864000000, hwid = Some ''''\<rparr>
     = Available"
  by (simp add: getLicenseStatus_eq expired_at_def within_7_days_def hwid_bound_def)

text \<open>
  C7 (as the code has it). The status depends on nothing but the record's \<open>expires_at\<close>, whether
  its \<open>hwid\<close> is a non-empty string, and the wall-clock reading that \<open>new Date()\<close> takes inside
  the call: two evaluations that agree on these three return the same status, whatever the
  license keys and whatever the hardware identifiers are.
\<close>

theorem getLicenseStatus_depends_on:
  assumes "clock = clock'"
    and "expires_at r = expires_at r'"
    and "truthy (hwid r) = truthy (hwid r')"
  shows "getLicenseStatus clock r = getLicenseStatus clock' r'"
  using assms by (simp add: getLicenseStatus_def)

theorem getLicenseStatus_depends_on_witness:
  "getLicenseStatus 5 \<lparr>license_key = ''A'', expires_at = Date 700000000, hwid = Some ''pc-1''\<rparr>
     = getLicenseStatus 5 \<lparr>license_key = ''B'', expires_at = Date 700000000, hwid = Some ''pc-2''\<rparr>"
  by (rule getLicenseStatus_depends_on) (simp_all add: truthy_def)

text \<open>
  C7 as the specification words it has the instant passed in and the wall clock never read.
  The function of the source takes the record alone and reads the clock itself, so two
  evaluations on the same record differ once the clock has moved past the expiry instant.
\<close>

theorem getLicenseStatus_reads_clock_counterexample:
  "getLicenseStatus 0 \<lparr>license_key = ''K'', expires_at = Date 0, hwid = None\<rparr> = Expiring \<and>
   getLicenseStatus 1 \<lparr>license_key = ''K'', expires_at = Date 0, hwid = None\<rparr> = Expired"
  by (simp add: getLicenseStatus_eq expired_at_def within_7_days_def)


section \<open>Properties of the filter engine\<close>







section \<open>Properties of the sort engine\<close>























section \<open>Properties of the paginator\<close>

lemma pages_bounds:
  assumes p: "0 < p"
  shows "((int n + p - 1) div p - 1) * p < int n" and "int n \<le> (int n + p - 1) div p * p"
proof -
  define a where "a = (int n + p - 1) div p"
  define r where "r = (int n + p - 1) mod p"
  have split: "int n + p - 1 = p * a + r"
    by (simp add: a_def r_def)
  have r: "0 \<le> r" "r < p"
    using p by (simp_all add: r_def)
  show "((int n + p - 1) div p - 1) * p < int n"
    unfolding a_def [symmetric] using split r by (simp add: algebra_simps)
  show "int n \<le> (int n + p - 1) div p * p"
    unfolding a_def [symmetric] using split r by (simp add: algebra_simps)
qed

lemma ceiling_pages:
  assumes p: "0 < p"
  shows "\<lceil>(of_nat n :: rat) / of_int p\<rceil> = (int n + p - 1) div p"
proof -
  define a where "a = (int n + p - 1) div p"
  have lo: "(a - 1) * p < int n" and hi: "int n \<le> a * p"
    unfolding a_def using pages_bounds [OF p, of n] by simp_all
  have "(of_int ((a - 1) * p) :: rat) < of_int (int n)"
    using lo by (simp only: of_int_less_iff)
  then have lo': "(of_int a - 1 :: rat) < of_nat n / of_int p"
    using p by (simp add: pos_less_divide_eq)
  have "(of_int (int n) :: rat) \<le> of_int (a * p)"
    using hi by (simp only: of_int_le_iff)
  then have hi': "(of_nat n :: rat) / of_int p \<le> of_int a"
    using p by (simp add: pos_divide_le_eq)
  show ?thesis
    unfolding a_def [symmetric] using lo' hi' by (simp add: ceiling_eq_iff)
qed

lemma totalPages_eq:
  "1 \<le> ps \<Longrightarrow> totalPages xs ps = Some (max 1 ((int (length xs) + ps - 1) div ps))"
  by (simp add: totalPages_def ceiling_pages)

lemma totalPages_covers:
  assumes ps: "1 \<le> ps"
  shows "int (length xs) \<le> max 1 ((int (length xs) + ps - 1) div ps) * ps"
proof -
  have "int (length xs) \<le> (int (length xs) + ps - 1) div ps * ps"
    using pages_bounds(2) [of ps "length xs"] ps by simp
  also have "\<dots> \<le> max 1 ((int (length xs) + ps - 1) div ps) * ps"
    using ps by (intro mult_right_mono) simp_all
  finally show ?thesis .
qed

lemma totalPages_least:
  assumes ps: "1 \<le> ps" and m: "1 \<le> m" and cover: "int (length xs) \<le> m * ps"
  shows "max 1 ((int (length xs) + ps - 1) div ps) \<le> m"
proof -
  have "(int (length xs) + ps - 1) div ps \<le> m"
  proof (rule ccontr)
    assume "\<not> (int (length xs) + ps - 1) div ps \<le> m"
    then have "m \<le> (int (length xs) + ps - 1) div ps - 1" by simp
    then have "m * ps \<le> ((int (length xs) + ps - 1) div ps - 1) * ps"
      using ps by (intro mult_right_mono) simp_all
    also have "\<dots> < int (length xs)"
      using pages_bounds(1) [of ps "length xs"] ps by simp
    finally show False using cover by simp
  qed
  with m show ?thesis by simp
qed

lemma take_drop_nth:
  "take n (drop k xs) = map (\<lambda>i. xs ! i) [k ..< min (k + n) (length xs)]"
  by (rule nth_equalityI) auto

lemma page_slice:
  assumes ps: "1 \<le> ps" and pg: "1 \<le> pg"
  shows "paginatedLicenses xs pg ps = take (nat ps) (drop (nat ((pg - 1) * ps)) xs)"
proof -
  define start where "start = (pg - 1) * ps"
  have s0: "0 \<le> start"
    using ps pg by (simp add: start_def)
  show ?thesis
  proof (cases "start < int (length xs)")
    case True
    with s0 ps show ?thesis
      unfolding paginatedLicenses_def slice_def Let_def start_def [symmetric]
      by (auto simp add: min_def nat_diff_distrib' nat_add_distrib)
  next
    case False
    with s0 ps show ?thesis
      unfolding paginatedLicenses_def slice_def Let_def start_def [symmetric]
      by (auto simp add: min_def)
  qed
qed

lemma length_page:
  assumes "1 \<le> ps"
  shows "length (paginatedLicenses xs pg ps) \<le> nat ps"
  using assms by (auto simp add: paginatedLicenses_def slice_def Let_def)

lemma concat_chunks:
  "concat (map (\<lambda>k. take p (drop (k * p) xs)) [0..<m]) = take (m * p) xs"
proof (induction m)
  case 0
  then show ?case by simp
next
  case (Suc m)
  have "take (Suc m * p) xs = take (m * p + p) xs" by (simp add: add.commute)
  also have "\<dots> = take (m * p) xs @ take p (drop (m * p) xs)" by (rule take_add)
  finally show ?case using Suc by simp
qed

lemma upto_as_upt: "[1..int m] = map (\<lambda>k. int k + 1) [0..<m]"
proof (induction m)
  case 0
  then show ?case by simp
next
  case (Suc m)
  have "[1..int (Suc m)] = [1..int m] @ [int m + 1]"
    using upto_rec2 [of 1 "int (Suc m)"] by (simp add: add.commute)
  with Suc show ?case by simp
qed

lemma concat_pages:
  assumes ps: "1 \<le> ps" and n: "1 \<le> n" and cover: "int (length xs) \<le> n * ps"
  shows "concat (map (\<lambda>i. paginatedLicenses xs i ps) [1..n]) = xs"
proof -
  define m where "m = nat n"
  define p where "p = nat ps"
  have n_eq: "n = int m" using n by (simp add: m_def)
  have page: "paginatedLicenses xs (int k + 1) ps = take p (drop (k * p) xs)" for k
    using page_slice [OF ps, of "int k + 1" xs] ps
    by (simp add: p_def nat_mult_distrib)
  have "concat (map (\<lambda>i. paginatedLicenses xs i ps) [1..n])
      = concat (map (\<lambda>k. take p (drop (k * p) xs)) [0..<m])"
    by (simp add: n_eq upto_as_upt comp_def page)
  also have "\<dots> = take (m * p) xs" by (rule concat_chunks)
  also have "\<dots> = xs"
  proof -
    have "int (length xs) \<le> int m * int p"
      using cover ps n by (simp add: m_def p_def)
    then have "length xs \<le> m * p"
      by (metis of_nat_le_iff of_nat_mult)
    then show ?thesis by simp
  qed
  finally show ?thesis .
qed

text \<open>
  C4. For every record list, every page size of at least one and every page index of at least
  one, \<open>totalPages\<close> is \<open>max(1, ceil(len / page_size))\<close>, that is the least number of pages, at
  least one, that holds all records; the page is the slice of the records from index
  \<open>(page_index - 1) * page_size\<close> up to, and not including, that index plus \<open>page_size\<close>, clipped
  to the length of the list; and the empty list has one page, which is empty.
\<close>

theorem paginator_correct:
  assumes "1 \<le> page_size" and "1 \<le> page_index"
  shows "totalPages records page_size
           = Some (max 1 \<lceil>(of_nat (length records) :: rat) / of_int page_size\<rceil>) \<and>
         (\<exists>n. totalPages records page_size = Some n \<and> 1 \<le> n \<and>
              int (length records) \<le> n * page_size \<and>
              (\<forall>m. 1 \<le> m \<and> int (length records) \<le> m * page_size \<longrightarrow> n \<le> m)) \<and>
         paginatedLicenses records page_index page_size
           = map (\<lambda>i. records ! i)
               [nat ((page_index - 1) * page_size)
                  ..< min (nat ((page_index - 1) * page_size) + nat page_size) (length records)] \<and>
         totalPages ([] :: 'a list) page_size = Some 1 \<and>
         paginatedLicenses ([] :: 'a list) page_index page_size = []"
proof -
  have lit: "totalPages records page_size
      = Some (max 1 \<lceil>(of_nat (length records) :: rat) / of_int page_size\<rceil>)"
    using assms(1) by (simp add: totalPages_def)
  have least: "\<exists>n. totalPages records page_size = Some n \<and> 1 \<le> n \<and>
              int (length records) \<le> n * page_size \<and>
              (\<forall>m. 1 \<le> m \<and> int (length records) \<le> m * page_size \<longrightarrow> n \<le> m)"
    using totalPages_eq [OF assms(1), of records] totalPages_covers [OF assms(1), of records]
      totalPages_least [OF assms(1), of _ records]
    by auto
  have page: "paginatedLicenses records page_index page_size
           = map (\<lambda>i. records ! i)
               [nat ((page_index - 1) * page_size)
                  ..< min (nat ((page_index - 1) * page_size) + nat page_size) (length records)]"
    by (simp only: page_slice [OF assms] take_drop_nth)
  have e1: "totalPages ([] :: 'a list) page_size = Some 1"
    using assms(1) by (simp add: totalPages_def)
  have e2: "paginatedLicenses ([] :: 'a list) page_index page_size = []"
    by (simp add: paginatedLicenses_def slice_def)
  show ?thesis
    using lit least page e1 e2 by blast
qed

text \<open>
  Twenty-five records at ten a page make three pages, and the third page holds the last five.
\<close>

theorem paginator_correct_witness:
  "(1::int) \<le> 10 \<and> (1::int) \<le> 3 \<and>
   totalPages [0 ..< 25] 10 = Some 3 \<and>
   paginatedLicenses [0 ..< 25] 3 10 = [20, 21, 22, 23, 24] \<and>
   totalPages ([] :: nat list) 10 = Some 1 \<and>
   paginatedLicenses ([] :: nat list) 3 10 = []"
proof -
  have h1: "(1::int) \<le> 10" and h2: "(1::int) \<le> 3" by simp_all
  note th = paginator_correct [OF h1 h2, of "[0 ..< 25]"]
  have t: "max 1 \<lceil>(of_nat (length [0 ..< 25]) :: rat) / of_int 10\<rceil> = 3"
    by (simp add: ceiling_eq_iff)
  have p: "map (\<lambda>i. [0 ..< 25] ! i)
      [nat ((3 - 1) * 10) ..< min (nat ((3 - 1) * 10) + nat 10) (length [0 ..< 25])]
      = [20, 21, 22, 23, 24]"
    by (simp add: upt_rec)
  from th [unfolded t p] h1 h2 show ?thesis by blast
qed

text \<open>
  C5. For every record list and every page size of at least one, no page holds more than
  \<open>page_size\<close> records, whatever the page index, and the pages \<open>1\<close> to \<open>totalPages\<close>,
  concatenated in order, are the record list itself: every record appears once, in place.
\<close>

theorem pages_partition:
  assumes "1 \<le> page_size"
  shows "length (paginatedLicenses records page_index page_size) \<le> nat page_size \<and>
         (\<exists>n. totalPages records page_size = Some n \<and>
              concat (map (\<lambda>i. paginatedLicenses records i page_size) [1..n]) = records)"
proof -
  define n where "n = max 1 ((int (length records) + page_size - 1) div page_size)"
  have tp: "totalPages records page_size = Some n"
    unfolding n_def by (rule totalPages_eq [OF assms])
  have "concat (map (\<lambda>i. paginatedLicenses records i page_size) [1..n]) = records"
    unfolding n_def
    by (rule concat_pages [OF assms _ totalPages_covers [OF assms]]) simp
  with tp length_page [OF assms, of records page_index] show ?thesis by blast
qed

theorem pages_partition_witness:
  "(1::int) \<le> 2 \<and>
   totalPages [10, 11, 12, 13, 14 :: nat] 2 = Some 3 \<and>
   paginatedLicenses [10, 11, 12, 13, 14 :: nat] 1 2
     @ paginatedLicenses [10, 11, 12, 13, 14 :: nat] 2 2
     @ paginatedLicenses [10, 11, 12, 13, 14 :: nat] 3 2 = [10, 11, 12, 13, 14] \<and>
   length (paginatedLicenses [10, 11, 12, 13, 14 :: nat] 3 2) \<le> 2"
proof -
  have h: "(1::int) \<le> 2" by simp
  have t: "totalPages [10, 11, 12, 13, 14 :: nat] 2 = Some 3"
    by (simp add: totalPages_def ceiling_eq_iff)
  have u: "[1..3] = [1, 2, 3 :: int]"
    by (simp add: upto_rec1)
  from pages_partition [OF h, of "[10, 11, 12, 13, 14 :: nat]" 3] t u h
  show ?thesis by auto
qed

section \<open>Properties of the dashboard aggregates\<close>

lemma date_greater_iff: "date_less (Date T) (expires_at r) = expires_after T r"
  by (simp add: date_less_def num_less_def getTime_def expires_after_def split: js_date.split)

lemma stats_counts:
  "total_count (stats T ls) = length ls"
  "active_count (stats T ls) = length (filter (\<lambda>l. hwid l \<noteq> None) ls)"
  "expired_count (stats T ls) = length (filter (expired_at T) ls)"
  "available_count (stats T ls) = length (filter (\<lambda>l. hwid l = None \<and> expires_after T l) ls)"
  by (simp_all add: stats_def isExpired_iff date_greater_iff)

text \<open>
  C10. The aggregate counts are taken from the raw fields, not from the classifier: for every
  license list and clock reading, \<open>active\<close> counts the records whose \<open>hwid\<close> is not null,
  whatever their expiry, \<open>expired\<close> counts the records whose expiry instant is strictly before
  the clock reading, and \<open>available\<close> counts the records with a null \<open>hwid\<close> whose expiry
  instant is strictly after it. The counts do not partition the records: a bound record that
  has expired is classified \<open>Expired\<close> and adds one to both \<open>active\<close> and \<open>expired\<close>; a record
  expiring exactly at the clock reading adds to neither \<open>expired\<close> nor \<open>available\<close>; and in
  these cases the total differs from the sum of the three counts.
\<close>

theorem stats_do_not_partition:
  "total_count (stats T ls) = length ls \<and>
   active_count (stats T ls) = length (filter (\<lambda>l. hwid l \<noteq> None) ls) \<and>
   expired_count (stats T ls) = length (filter (expired_at T) ls) \<and>
   available_count (stats T ls) = length (filter (\<lambda>l. hwid l = None \<and> expires_after T l) ls) \<and>
   (hwid b \<noteq> None \<and> expired_at T b \<longrightarrow>
      getLicenseStatus T b = Expired \<and>
      active_count (stats T (b # ls)) = active_count (stats T ls) + 1 \<and>
      expired_count (stats T (b # ls)) = expired_count (stats T ls) + 1 \<and>
      total_count (stats T [b])
        \<noteq> active_count (stats T [b]) + expired_count (stats T [b]) + available_count (stats T [b])) \<and>
   (expires_at e = Date T \<longrightarrow>
      expired_count (stats T (e # ls)) = expired_count (stats T ls) \<and>
      available_count (stats T (e # ls)) = available_count (stats T ls) \<and>
      (hwid e = None \<longrightarrow>
         total_count (stats T [e])
           \<noteq> active_count (stats T [e]) + expired_count (stats T [e]) + available_count (stats T [e])))"
proof -
  have bound: "getLicenseStatus T b = Expired \<and>
      active_count (stats T (b # ls)) = active_count (stats T ls) + 1 \<and>
      expired_count (stats T (b # ls)) = expired_count (stats T ls) + 1 \<and>
      total_count (stats T [b])
        \<noteq> active_count (stats T [b]) + expired_count (stats T [b]) + available_count (stats T [b])"
    if "hwid b \<noteq> None" "expired_at T b"
    using that by (simp add: stats_counts getLicenseStatus_eq)
  have edge: "expired_count (stats T (e # ls)) = expired_count (stats T ls) \<and>
      available_count (stats T (e # ls)) = available_count (stats T ls) \<and>
      (hwid e = None \<longrightarrow>
         total_count (stats T [e])
           \<noteq> active_count (stats T [e]) + expired_count (stats T [e]) + available_count (stats T [e]))"
    if "expires_at e = Date T"
    using that by (simp add: stats_counts expired_at_def expires_after_def)
  show ?thesis
    using bound edge by (simp add: stats_counts)
qed

text \<open>
  A bound record that expired a second ago, and an unbound record expiring at the clock
  reading itself, at clock reading \<open>5000\<close>.
\<close>

theorem stats_do_not_partition_witness:
  "hwid \<lparr>license_key = ''K1'', expires_at = Date 4000, hwid = Some ''pc''\<rparr> \<noteq> None \<and>
   expired_at 5000 \<lparr>license_key = ''K1'', expires_at = Date 4000, hwid = Some ''pc''\<rparr> \<and>
   expires_at \<lparr>license_key = ''K2'', expires_at = Date 5000, hwid = None\<rparr> = Date 5000 \<and>
   hwid \<lparr>license_key = ''K2'', expires_at = Date 5000, hwid = None\<rparr> = None \<and>
   stats 5000 [\<lparr>license_key = ''K1'', expires_at = Date 4000, hwid = Some ''pc''\<rparr>]
     = \<lparr>total_count = 1, active_count = 1, expired_count = 1, available_count = 0\<rparr> \<and>
   stats 5000 [\<lparr>license_key = ''K2'', expires_at = Date 5000, hwid = None\<rparr>]
     = \<lparr>total_count = 1, active_count = 0, expired_count = 0, available_count = 0\<rparr>"
proof -
  have ev:
    "stats 5000 [\<lparr>license_key = ''K1'', expires_at = Date 4000, hwid = Some ''pc''\<rparr>]
       = \<lparr>total_count = 1, active_count = 1, expired_count = 1, available_count = 0\<rparr>"
    "stats 5000 [\<lparr>license_key = ''K2'', expires_at = Date 5000, hwid = None\<rparr>]
       = \<lparr>total_count = 1, active_count = 0, expired_count = 0, available_count = 0\<rparr>"
    by (simp_all add: stats_def date_less_def num_less_def getTime_def)
  from stats_do_not_partition [of 5000 "[]"
      "\<lparr>license_key = ''K1'', expires_at = Date 4000, hwid = Some ''pc''\<rparr>"
      "\<lparr>license_key = ''K2'', expires_at = Date 5000, hwid = None\<rparr>"] ev
  show ?thesis by (simp add: expired_at_def)
qed

section \<open>Properties of the authorization check\<close>









section \<open>Properties of the refresh\<close>

text \<open>
  C9. When the refresh is attempted (the user is authorized and the client exists) and fails,
  the message is stored in \<open>error\<close> and nothing else changes: the license list is the one from
  before and \<open>loading\<close> is off again. When it succeeds, the list is replaced by the fetched data
  (the empty list when the data is \<open>null\<close>), \<open>error\<close> is cleared and \<open>loading\<close> is off again.
  Either way a state is returned from which the next refresh runs as from any other: a
  success after a failure replaces the list and clears the message, and a failure after a
  success keeps the fetched list.
\<close>

theorem fetchLicenses_outcomes:
  "fetchLicenses True True (FetchFailed m) s = s\<lparr>error := Some m, loading := False\<rparr> \<and>
   licenses (fetchLicenses True True (FetchFailed m) s) = licenses s \<and>
   error (fetchLicenses True True (FetchFailed m) s) = Some m \<and>
   fetchLicenses True True (FetchData d) s
     = s\<lparr>licenses := (case d of None \<Rightarrow> [] | Some x \<Rightarrow> x), error := None, loading := False\<rparr> \<and>
   licenses (fetchLicenses True True (FetchData (Some ls)) s) = ls \<and>
   error (fetchLicenses True True (FetchData d) s) = None \<and>
   loading (fetchLicenses True True r s) = False \<and>
   fetchLicenses True True (FetchData d) (fetchLicenses True True (FetchFailed m) s)
     = fetchLicenses True True (FetchData d) s \<and>
   licenses (fetchLicenses True True (FetchFailed m) (fetchLicenses True True (FetchData (Some ls)) s))
     = ls"
  by (cases r) (simp_all add: fetchLicenses_def)

text \<open>
  A failed refresh on a loaded list keeps the record and shows the message; the next
  successful refresh replaces the list and clears the message.
\<close>

theorem fetchLicenses_outcomes_witness:
  "licenses (fetchLicenses True True (FetchFailed ''timeout'')
      (initial\<lparr>licenses := [\<lparr>license_key = ''K1'', expires_at = Date 0, hwid = None\<rparr>]\<rparr>))
     = [\<lparr>license_key = ''K1'', expires_at = Date 0, hwid = None\<rparr>] \<and>
   error (fetchLicenses True True (FetchFailed ''timeout'')
      (initial\<lparr>licenses := [\<lparr>license_key = ''K1'', expires_at = Date 0, hwid = None\<rparr>]\<rparr>))
     = Some ''timeout'' \<and>
   error (fetchLicenses True True (FetchData (Some []))
      (fetchLicenses True True (FetchFailed ''timeout'')
        (initial\<lparr>licenses := [\<lparr>license_key = ''K1'', expires_at = Date 0, hwid = None\<rparr>]\<rparr>)))
     = None"
proof -
  note t1 = fetchLicenses_outcomes [of "''timeout''"
      "initial\<lparr>licenses := [\<lparr>license_key = ''K1'', expires_at = Date 0, hwid = None\<rparr>]\<rparr>"]
  note t2 = fetchLicenses_outcomes [of _
      "fetchLicenses True True (FetchFailed ''timeout'')
        (initial\<lparr>licenses := [\<lparr>license_key = ''K1'', expires_at = Date 0, hwid = None\<rparr>]\<rparr>)"
      "Some []"]
  from t1 have c2: "licenses (fetchLicenses True True (FetchFailed ''timeout'')
      (initial\<lparr>licenses := [\<lparr>license_key = ''K1'', expires_at = Date 0, hwid = None\<rparr>]\<rparr>))
     = licenses (initial\<lparr>licenses := [\<lparr>license_key = ''K1'', expires_at = Date 0, hwid = None\<rparr>]\<rparr>)"
    by blast
  from t1 have c3: "error (fetchLicenses True True (FetchFailed ''timeout'')
      (initial\<lparr>licenses := [\<lparr>license_key = ''K1'', expires_at = Date 0, hwid = None\<rparr>]\<rparr>))
     = Some ''timeout''"
    by blast
  from t2 have c6: "error (fetchLicenses True True (FetchData (Some []))
      (fetchLicenses True True (FetchFailed ''timeout'')
        (initial\<lparr>licenses := [\<lparr>license_key = ''K1'', expires_at = Date 0, hwid = None\<rparr>]\<rparr>)))
     = None"
    by blast
  show ?thesis
    unfolding c2 c3 c6 by simp
qed

section \<open>Properties of the view model controller\<close>

lemma commit_effects_fields:
  "commit_effects prev cur = cur\<lparr>currentPage := currentPage (commit_effects prev cur)\<rparr>"
  by (simp add: commit_effects_def)

lemma render_totalPages_page:
  "render_totalPages (s\<lparr>currentPage := p\<rparr>) = render_totalPages s"
  by (simp add: render_totalPages_def)

lemma render_totalPages_ge1: "render_totalPages s = Some t \<Longrightarrow> 1 \<le> t"
  by (auto simp add: render_totalPages_def totalPages_def split: if_splits)

lemma settle_unfold:
  "settle prev cur =
     (if currentPage (commit_effects prev cur) = currentPage cur then cur
      else settle cur (commit_effects prev cur))"
  by (subst settle.simps) (simp add: Let_def)

lemma settle_stable:
  assumes "render_totalPages cur = Some t" "currentPage cur \<le> t"
    and "(searchTerm prev, filterStatus prev, pageSize prev)
           = (searchTerm cur, filterStatus cur, pageSize cur)"
  shows "settle prev cur = cur"
  using assms
  by (simp add: settle_unfold [of prev cur] commit_effects_def page_reset_effect_def page_clamp_effect_def)

lemma settle_result:
  assumes prev: "page_in_range prev" and t: "render_totalPages cur = Some t"
  shows "settle prev cur =
     cur\<lparr>currentPage :=
       (if currentPage cur > t then t
        else if (searchTerm prev, filterStatus prev, pageSize prev)
             = (searchTerm cur, filterStatus cur, pageSize cur) then currentPage cur
        else 1)\<rparr>"
proof -
  have t1: "1 \<le> t" using t by (rule render_totalPages_ge1)
  let ?next = "commit_effects prev cur"
  have same: "(searchTerm cur, filterStatus cur, pageSize cur)
      = (searchTerm ?next, filterStatus ?next, pageSize ?next)"
    by (simp add: commit_effects_def)
  have tn: "render_totalPages ?next = Some t"
    using t by (simp add: commit_effects_def render_totalPages_page)
  show ?thesis
  proof (cases "currentPage cur > t")
    case True
    have clamp: "page_clamp_effect prev cur = [t]"
      using True prev t by (auto simp add: page_clamp_effect_def page_in_range_def)
    have n: "?next = cur\<lparr>currentPage := t\<rparr>"
      by (simp add: commit_effects_def clamp page_reset_effect_def)
    have "settle prev cur = settle cur ?next"
      using True n by (simp add: settle_unfold [of prev cur])
    also have "\<dots> = ?next"
      by (rule settle_stable [OF tn _ same]) (simp add: n)
    finally show ?thesis using True n by simp
  next
    case False
    have clamp: "page_clamp_effect prev cur = []"
      using False t by (simp add: page_clamp_effect_def)
    show ?thesis
    proof (cases "(searchTerm prev, filterStatus prev, pageSize prev)
             = (searchTerm cur, filterStatus cur, pageSize cur)")
      case True
      with False t show ?thesis
        using settle_stable [OF t _ True] by simp
    next
      case d: False
      have reset: "page_reset_effect prev cur = [1]"
        using d by (auto simp add: page_reset_effect_def)
      have n: "?next = cur\<lparr>currentPage := 1\<rparr>"
        by (simp add: commit_effects_def clamp reset)
      show ?thesis
      proof (cases "currentPage cur = 1")
        case True
        have "cur\<lparr>currentPage := currentPage cur\<rparr> = cur" by simp
        with True have id: "cur\<lparr>currentPage := 1\<rparr> = cur" by simp
        have "settle prev cur = cur"
          using True n by (simp add: settle_unfold [of prev cur])
        then show ?thesis using False d id by auto
      next
        case c: False
        have "settle prev cur = settle cur ?next"
          using c n by (simp add: settle_unfold [of prev cur])
        also have "\<dots> = ?next"
          by (rule settle_stable [OF tn _ same]) (simp add: n t1)
        finally show ?thesis using False d n by auto
      qed
    qed
  qed
qed

lemma settle_totalPages:
  assumes "page_in_range prev" and "render_totalPages cur = Some t"
  shows "render_totalPages (settle prev cur) = Some t"
  using assms(2) by (simp add: settle_result [OF assms] render_totalPages_page)

lemma settle_in_range:
  assumes "page_in_range prev" and "render_totalPages cur = Some t" and "1 \<le> currentPage cur"
  shows "page_in_range (settle prev cur)"
proof -
  have "1 \<le> t" using assms(2) by (rule render_totalPages_ge1)
  with assms(3) show ?thesis
    unfolding page_in_range_def settle_totalPages [OF assms(1,2)]
    by (simp add: settle_result [OF assms(1,2)])
qed

lemma recompute_fields:
  "pageSize (recompute_lists lc clock s) = pageSize s"
  "currentPage (recompute_lists lc clock s) = currentPage s"
  "searchTerm (recompute_lists lc clock s) = searchTerm s"
  "filterStatus (recompute_lists lc clock s) = filterStatus s"
  "pageSize (recompute_sorted lc clock s) = pageSize s"
  "currentPage (recompute_sorted lc clock s) = currentPage s"
  "searchTerm (recompute_sorted lc clock s) = searchTerm s"
  "filterStatus (recompute_sorted lc clock s) = filterStatus s"
  by (simp_all add: recompute_lists_def recompute_sorted_def)

lemma fetchLicenses_fields:
  "pageSize (fetchLicenses a c r s) = pageSize s"
  "currentPage (fetchLicenses a c r s) = currentPage s"
  "searchTerm (fetchLicenses a c r s) = searchTerm s"
  "filterStatus (fetchLicenses a c r s) = filterStatus s"
  by (simp_all add: fetchLicenses_def Let_def split: fetch_result.split)

lemma handle_pageSize:
  "pageSize (handle lc clock ev s) = (case ev of PageSizeSelect n \<Rightarrow> n | _ \<Rightarrow> pageSize s)"
  by (cases ev) (simp_all add: recompute_fields fetchLicenses_fields split: fetch_result.split)

lemma handle_page_ge1:
  assumes "page_in_range s"
  shows "1 \<le> currentPage (handle lc clock ev s)"
proof -
  obtain t where t: "render_totalPages s = Some t" "1 \<le> currentPage s" "currentPage s \<le> t"
    using assms by (auto simp add: page_in_range_def split: option.splits)
  then show ?thesis
    by (cases ev) (simp_all add: recompute_fields fetchLicenses_fields split: fetch_result.split)
qed

lemma render_totalPages_Some:
  "pageSize s \<noteq> 0 \<Longrightarrow> \<exists>t. render_totalPages s = Some t"
  by (simp add: render_totalPages_def totalPages_def)

text \<open>
  The part of C6 that the code keeps: an event that leaves the page size at least one takes a
  state whose page index is in \<open>[1, totalPages]\<close> to a state whose page index is in
  \<open>[1, totalPages]\<close>, once the effects have run.
\<close>

lemma dispatch_in_range:
  assumes "page_in_range s" and "1 \<le> pageSize s" and "\<And>n. ev = PageSizeSelect n \<Longrightarrow> 1 \<le> n"
  shows "page_in_range (dispatch lc clock ev s)"
proof -
  have "pageSize (handle lc clock ev s) \<noteq> 0"
    using assms(2,3) by (auto simp add: handle_pageSize split: event.split)
  then obtain t where "render_totalPages (handle lc clock ev s) = Some t"
    using render_totalPages_Some by blast
  then show ?thesis
    unfolding dispatch_def
    by (rule settle_in_range [OF assms(1) _ handle_page_ge1 [OF assms(1)]])
qed

text \<open>
  What happens to the page index when the search term, the status filter or the page size
  changes: it ends at \<open>1\<close> unless the page index from before the change exceeds the new
  \<open>totalPages\<close>; then both effects fire after the same render, the clamp's call of
  \<open>setCurrentPage\<close> comes after the reset's, and the page index ends at \<open>totalPages\<close>.
\<close>

lemma page_after_change:
  assumes "page_in_range s"
    and "(searchTerm s, filterStatus s, pageSize s)
           \<noteq> (searchTerm (handle lc clock ev s), filterStatus (handle lc clock ev s),
               pageSize (handle lc clock ev s))"
    and "currentPage (handle lc clock ev s) = currentPage s"
    and "render_totalPages (handle lc clock ev s) = Some t"
  shows "currentPage (dispatch lc clock ev s) = (if t < currentPage s then t else 1)"
  unfolding dispatch_def settle_result [OF assms(1,4)]
  using assms(2,3) by auto

lemma dispatch_pageSize:
  "pageSize (dispatch lc clock ev s) = pageSize (handle lc clock ev s)"
proof -
  have "pageSize (settle prev cur) = pageSize cur" for prev cur
  proof (induction prev cur rule: settle.induct)
    case (1 prev cur)
    then show ?case
      by (subst settle_unfold) (simp add: commit_effects_def)
  qed
  then show ?thesis by (simp add: dispatch_def)
qed

lemma reachable_in_range:
  "reachable lc s \<Longrightarrow> page_in_range s \<and> 1 \<le> pageSize s"
proof (induction rule: reachable.induct)
  case mounted
  show ?case
    by (simp add: page_in_range_def render_totalPages_def totalPages_def initial_def)
next
  case (handled s ev clock)
  have size: "1 \<le> pageSize (dispatch lc clock ev s)"
    using handled.hyps(2) handled.IH
    by (auto simp add: dispatch_pageSize handle_pageSize offered_def split: event.splits)
  have "page_in_range (dispatch lc clock ev s)"
  proof (rule dispatch_in_range)
    show "page_in_range s" and "1 \<le> pageSize s" using handled.IH by simp_all
    show "1 \<le> n" if "ev = PageSizeSelect n" for n
      using handled.hyps(2) that by (auto simp add: offered_def)
  qed
  with size show ?case by simp
qed

text \<open>
  C6, at the input where the code departs from it. Twenty-one licenses are loaded, ten a page,
  and the third page is shown (a state reached from the initial one by the refresh and two
  clicks on the next-page button). The user types the search term \<open>vip\<close>, which eleven keys
  contain: the search term has changed, \<open>totalPages\<close> is now \<open>2\<close>, and after the effects have
  run the page index is \<open>2\<close>, not \<open>1\<close>.
\<close>

theorem search_change_page_not_reset:
  "dispatch (\<lambda>a b. 0) 0 NextClick (dispatch (\<lambda>a b. 0) 0 NextClick
      (dispatch (\<lambda>a b. 0) 0 (Refreshed (FetchData (Some twenty_one_licenses))) initial))
     = on_page_three \<and>
   currentPage on_page_three = 3 \<and>
   render_totalPages on_page_three = Some 3 \<and>
   searchTerm on_page_three = [] \<and>
   searchTerm (dispatch (\<lambda>a b. 0) 0 (SearchInput ''vip'') on_page_three) = ''vip'' \<and>
   render_totalPages (dispatch (\<lambda>a b. 0) 0 (SearchInput ''vip'') on_page_three) = Some 2 \<and>
   currentPage (dispatch (\<lambda>a b. 0) 0 (SearchInput ''vip'') on_page_three) = 2"
proof -
  have reach: "dispatch (\<lambda>a b. 0) 0 NextClick (dispatch (\<lambda>a b. 0) 0 NextClick
      (dispatch (\<lambda>a b. 0) 0 (Refreshed (FetchData (Some twenty_one_licenses))) initial))
     = on_page_three"
    by code_simp
  have before: "currentPage on_page_three = 3 \<and> render_totalPages on_page_three = Some 3 \<and>
      searchTerm on_page_three = []"
    by code_simp
  have after: "searchTerm (dispatch (\<lambda>a b. 0) 0 (SearchInput ''vip'') on_page_three) = ''vip'' \<and>
      render_totalPages (dispatch (\<lambda>a b. 0) 0 (SearchInput ''vip'') on_page_three) = Some 2 \<and>
      currentPage (dispatch (\<lambda>a b. 0) 0 (SearchInput ''vip'') on_page_three) = 2"
    by code_simp
  from reach before after show ?thesis by (intro conjI) (elim conjE, assumption)+
qed

end
